theory Spec2Isabelle
  imports Main "HOL-Library.Sublist"
begin

section \<open>Data model of message.go\<close>

text \<open>
  Go strings are byte sequences; \<open>string\<close> (a list of 8-bit characters) is the same thing.
  Only the fields that \<open>Reference\<close>, \<open>ContentWithMentionsReplaced\<close> and
  \<open>ContentWithMoreMentionsReplaced\<close> read are kept. The structs \<open>User\<close>, \<open>Member\<close>,
  \<open>Role\<close>, \<open>Channel\<close>, \<open>Session\<close> and \<open>State\<close> are declared outside message.go; their
  fields are the ones message.go selects. Pointers (\<open>*User\<close> in \<open>Mentions\<close>, the receiver
  \<open>m\<close>, the session \<open>s\<close>) are taken to be non-nil.
\<close>

record User =
  User_ID :: string
  Username :: string

record Member =
  Nick :: string

record Role =
  Role_ID :: string
  Role_Name :: string
  Mentionable :: bool

type_synonym ChannelType = int

record Channel =
  Channel_ID :: string
  Channel_GuildID :: string
  Channel_Name :: string
  Channel_Type :: ChannelType

record Message =
  ID :: string
  ChannelID :: string
  GuildID :: string
  Content :: string
  MentionRoles :: "string list"
  Mentions :: "User list"

record MessageReference =
  Ref_MessageID :: string
  Ref_ChannelID :: string
  Ref_GuildID :: string

text \<open>A Go \<open>error\<close> value is represented by its message; the nil error is \<open>None\<close>.\<close>

datatype error = Error string

text \<open>
  The state cache is used through three lookups, each returning a value or an error.
  Their code is not in message.go, so a \<open>State\<close> is any three such functions.
\<close>

record State =
  Channel :: "string \<Rightarrow> error + Channel"
  Member :: "string \<Rightarrow> string \<Rightarrow> error + Member"
  Role :: "string \<Rightarrow> string \<Rightarrow> error + Role"

record Session =
  StateEnabled :: bool
  State :: State

text \<open>
  To speak about which lookups a call performs, every lookup goes through a wrapper that
  returns, next to the result, the call it made. A traced value is a value together with
  the lookups made to compute it, in the order they were made.
\<close>

datatype Lookup =
  ChannelLookup string
  | MemberLookup string string
  | RoleLookup string string

type_synonym 'a traced = "'a \<times> Lookup list"

definition State_Channel :: "State \<Rightarrow> string \<Rightarrow> (error + Channel) traced" where
  "State_Channel st channelID = (Channel st channelID, [ChannelLookup channelID])"

definition State_Member :: "State \<Rightarrow> string \<Rightarrow> string \<Rightarrow> (error + Member) traced" where
  "State_Member st guildID userID = (Member st guildID userID, [MemberLookup guildID userID])"

definition State_Role :: "State \<Rightarrow> string \<Rightarrow> string \<Rightarrow> (error + Role) traced" where
  "State_Role st guildID roleID = (Role st guildID roleID, [RoleLookup guildID roleID])"

section \<open>The Go library functions that message.go calls\<close>

subsection \<open>strings.NewReplacer(...).Replace and strings.Replace\<close>

text \<open>
  A replacer is its list of (old, new) pairs in argument order. \<open>Replace\<close> scans the
  target from left to right; at each position the first pair, in argument order, whose old
  string starts there is applied and the scan continues behind the match, otherwise one
  byte is copied. message.go only builds old strings that start with \<open><@\<close>; an empty old
  string, which Go matches at every position, is never looked up here.
\<close>

type_synonym Replacer = "(string \<times> string) list"

definition NewReplacer :: "(string \<times> string) list \<Rightarrow> Replacer" where
  "NewReplacer oldnew = oldnew"

definition lookup :: "Replacer \<Rightarrow> string \<Rightarrow> (string \<times> string) option" where
  "lookup r s = find (\<lambda>(old, new). old \<noteq> [] \<and> prefix old s) r"

function Replace :: "Replacer \<Rightarrow> string \<Rightarrow> string" where
  "Replace r [] = []"
| "Replace r (c # cs) =
     (case lookup r (c # cs) of
        Some (old, new) \<Rightarrow> new @ Replace r (drop (length old) (c # cs))
      | None \<Rightarrow> c # Replace r cs)"
  by pat_completeness auto
termination
proof (relation "measure (\<lambda>(r, s). length s)")
  show "wf (measure (\<lambda>(r :: Replacer, s :: string). length s))"
    by simp
next
  fix r :: Replacer and c :: char and cs :: string and x2 :: "string \<times> string" and old new :: string
  assume found: "lookup r (c # cs) = Some x2" and pair: "(old, new) = x2"
  from found pair have "old \<noteq> []"
    by (auto simp: lookup_def find_Some_iff)
  then show "((r, drop (length old) (c # cs)), (r, c # cs)) \<in> measure (\<lambda>(r, s). length s)"
    by (cases old) simp_all
next
  fix r :: Replacer and c :: char and cs :: string
  show "((r, cs), (r, c # cs)) \<in> measure (\<lambda>(r, s). length s)"
    by simp
qed

text \<open>
  \<open>strings.Replace(s, old, new, -1)\<close> replaces every non-overlapping instance of a
  non-empty \<open>old\<close>, leftmost first: the same scan with a single pair.
\<close>

definition strings_Replace :: "string \<Rightarrow> string \<Rightarrow> string \<Rightarrow> string" where
  "strings_Replace s old new = Replace [(old, new)] s"

subsection \<open>The compiled pattern patternChannels and ReplaceAllStringFunc\<close>

text \<open>
  \<open>patternChannels\<close> is \<open><#[^>]*>\<close>. \<open>patternChannels_match s\<close> is the length of its
  match at the very start of \<open>s\<close>, if there is one: the two bytes \<open><#\<close>, then every byte up
  to the first \<open>>\<close>, then that \<open>>\<close>. The class \<open>[^>]\<close> takes any byte but \<open>>\<close>, newline
  included, so the match always ends at the first \<open>>\<close> behind \<open><#\<close>.
\<close>

fun patternChannels_match :: "string \<Rightarrow> nat option" where
  "patternChannels_match (a # b # rest) =
     (if a = CHR ''<'' \<and> b = CHR ''#'' \<and> CHR ''>'' \<in> set rest
      then Some (length (takeWhile (\<lambda>c. c \<noteq> CHR ''>'') rest) + 3)
      else None)"
| "patternChannels_match s = None"

definition traced_append :: "string traced \<Rightarrow> string traced \<Rightarrow> string traced" where
  "traced_append a b = (fst a @ fst b, snd a @ snd b)"

text \<open>
  \<open>ReplaceAllStringFunc\<close> replaces every match, leftmost first and without overlap, by
  what the callback returns for the matched text; the callback is run once per match, in
  order.
\<close>

function patternChannels_ReplaceAllStringFunc ::
    "string \<Rightarrow> (string \<Rightarrow> string traced) \<Rightarrow> string traced" where
  "patternChannels_ReplaceAllStringFunc [] repl = ([], [])"
| "patternChannels_ReplaceAllStringFunc (c # cs) repl =
     (case patternChannels_match (c # cs) of
        Some n \<Rightarrow>
          traced_append (repl (take n (c # cs)))
            (patternChannels_ReplaceAllStringFunc (drop n (c # cs)) repl)
      | None \<Rightarrow>
          traced_append ([c], []) (patternChannels_ReplaceAllStringFunc cs repl))"
  by pat_completeness auto
termination
proof (relation "measure (\<lambda>(s, repl). length s)")
  show "wf (measure (\<lambda>(s :: string, repl :: string \<Rightarrow> string traced). length s))"
    by simp
next
  fix c :: char and cs :: string and repl :: "string \<Rightarrow> string traced" and n :: nat
  assume "patternChannels_match (c # cs) = Some n"
  then have "0 < n"
    by (cases cs) (auto split: if_splits)
  then show "((drop n (c # cs), repl), (c # cs, repl)) \<in> measure (\<lambda>(s, repl). length s)"
    by (cases n) simp_all
next
  fix c :: char and cs :: string and repl :: "string \<Rightarrow> string traced"
  show "((cs, repl), (c # cs, repl)) \<in> measure (\<lambda>(s, repl). length s)"
    by simp
qed

section \<open>The functions of message.go\<close>

subsection \<open>Reference\<close>

definition Reference :: "Message \<Rightarrow> MessageReference" where
  "Reference m =
     \<lparr>Ref_MessageID = ID m, Ref_ChannelID = ChannelID m, Ref_GuildID = GuildID m\<rparr>"

subsection \<open>ContentWithMentionsReplaced\<close>

definition ContentWithMentionsReplaced :: "Message \<Rightarrow> string" where
  "ContentWithMentionsReplaced m =
     fold (\<lambda>user content.
        Replace (NewReplacer
          [(''<@'' @ User_ID user @ ''>'', ''@'' @ Username user),
           (''<@!'' @ User_ID user @ ''>'', ''@'' @ Username user)]) content)
       (Mentions m) (Content m)"

subsection \<open>ContentWithMoreMentionsReplaced\<close>

text \<open>The body of the loop over \<open>m.Mentions\<close>.\<close>

definition userStep :: "State \<Rightarrow> string \<Rightarrow> User \<Rightarrow> string \<Rightarrow> string traced" where
  "userStep st guildID user content =
     (case State_Member st guildID (User_ID user) of
        (res, calls) \<Rightarrow>
          (let nick = (case res of
                         Inr member \<Rightarrow> if Nick member \<noteq> [] then Nick member else Username user
                       | Inl err \<Rightarrow> Username user)
           in (Replace (NewReplacer
                 [(''<@'' @ User_ID user @ ''>'', ''@'' @ Username user),
                  (''<@!'' @ User_ID user @ ''>'', ''@'' @ nick)]) content,
               calls)))"

fun userPass :: "State \<Rightarrow> string \<Rightarrow> User list \<Rightarrow> string \<Rightarrow> string traced" where
  "userPass st guildID [] content = (content, [])"
| "userPass st guildID (user # users) content =
     (case userStep st guildID user content of
        (content', calls) \<Rightarrow>
          (case userPass st guildID users content' of
             (content'', calls') \<Rightarrow> (content'', calls @ calls')))"

text \<open>
  The body of the loop over \<open>m.MentionRoles\<close>; \<open>continue\<close> leaves the content as it is.
  The token replaced is built from the ID of the role the lookup returned.
\<close>

definition roleStep :: "State \<Rightarrow> string \<Rightarrow> string \<Rightarrow> string \<Rightarrow> string traced" where
  "roleStep st guildID roleID content =
     (case State_Role st guildID roleID of
        (Inl err, calls) \<Rightarrow> (content, calls)
      | (Inr role, calls) \<Rightarrow>
          if \<not> Mentionable role then (content, calls)
          else (strings_Replace content (''<@&'' @ Role_ID role @ ''>'') (''@'' @ Role_Name role),
                calls))"

fun rolePass :: "State \<Rightarrow> string \<Rightarrow> string list \<Rightarrow> string \<Rightarrow> string traced" where
  "rolePass st guildID [] content = (content, [])"
| "rolePass st guildID (roleID # roleIDs) content =
     (case roleStep st guildID roleID content of
        (content', calls) \<Rightarrow>
          (case rolePass st guildID roleIDs content' of
             (content'', calls') \<Rightarrow> (content'', calls @ calls')))"

text \<open>
  The callback given to \<open>ReplaceAllStringFunc\<close>. \<open>mention[2 : len(mention)-1]\<close> is the
  text between \<open><#\<close> and \<open>>\<close>. The constant \<open>ChannelTypeGuildVoice\<close> is declared outside
  message.go and is a parameter here.
\<close>

definition channelMention :: "State \<Rightarrow> ChannelType \<Rightarrow> string \<Rightarrow> string traced" where
  "channelMention st ChannelTypeGuildVoice mention =
     (case State_Channel st (drop 2 (take (length mention - 1) mention)) of
        (Inl err, calls) \<Rightarrow> (mention, calls)
      | (Inr channel, calls) \<Rightarrow>
          if Channel_Type channel = ChannelTypeGuildVoice then (mention, calls)
          else (''#'' @ Channel_Name channel, calls))"

definition channelPass :: "State \<Rightarrow> ChannelType \<Rightarrow> string \<Rightarrow> string traced" where
  "channelPass st ChannelTypeGuildVoice content =
     patternChannels_ReplaceAllStringFunc content (channelMention st ChannelTypeGuildVoice)"

text \<open>
  The result is the pair \<open>(content, err)\<close> of the Go function, together with the lookups
  made. \<open>channel, err := s.State.Channel(m.ChannelID)\<close> stands in the function's outermost
  block, where \<open>err\<close> is already declared as a result, so it assigns the result \<open>err\<close>: the
  bare \<open>return\<close> after a failed lookup returns that error. The \<open>err\<close> declared inside the
  two loops and inside the callback are new variables of their blocks.
\<close>

definition ContentWithMoreMentionsReplaced ::
    "ChannelType \<Rightarrow> Message \<Rightarrow> Session \<Rightarrow> (string \<times> error option) traced" where
  "ContentWithMoreMentionsReplaced ChannelTypeGuildVoice m s =
     (if \<not> StateEnabled s then ((ContentWithMentionsReplaced m, None), [])
      else
        (case State_Channel (State s) (ChannelID m) of
           (Inl err, calls0) \<Rightarrow> ((ContentWithMentionsReplaced m, Some err), calls0)
         | (Inr channel, calls0) \<Rightarrow>
             (case userPass (State s) (Channel_GuildID channel) (Mentions m) (Content m) of
                (content1, calls1) \<Rightarrow>
                  (case rolePass (State s) (Channel_GuildID channel) (MentionRoles m) content1 of
                     (content2, calls2) \<Rightarrow>
                       (case channelPass (State s) ChannelTypeGuildVoice content2 of
                          (content3, calls3) \<Rightarrow>
                            ((content3, None), calls0 @ calls1 @ calls2 @ calls3))))))"

section \<open>Vocabulary of the statements\<close>

text \<open>The two surface forms of a user mention and the surface form of a role mention.\<close>

abbreviation userToken :: "string \<Rightarrow> string" where
  "userToken userID \<equiv> ''<@'' @ userID @ ''>''"

abbreviation userNickToken :: "string \<Rightarrow> string" where
  "userNickToken userID \<equiv> ''<@!'' @ userID @ ''>''"

abbreviation roleToken :: "string \<Rightarrow> string" where
  "roleToken roleID \<equiv> ''<@&'' @ roleID @ ''>''"


text \<open>
  \<open>starts_no_token toks pre rest\<close>: in the text \<open>pre @ rest\<close>, no string of \<open>toks\<close> occurs at a
  position inside \<open>pre\<close>. So in \<open>pre @ t @ rest\<close> with \<open>starts_no_token toks pre (t @ rest)\<close>
  the occurrence of \<open>t\<close> behind \<open>pre\<close> is the leftmost occurrence of any token.
\<close>

fun starts_no_token :: "string list \<Rightarrow> string \<Rightarrow> string \<Rightarrow> bool" where
  "starts_no_token toks [] rest = True"
| "starts_no_token toks (c # cs) rest =
     ((\<forall>t \<in> set toks. \<not> prefix t (c # cs @ rest)) \<and> starts_no_token toks cs rest)"

subsection \<open>Example data\<close>

text \<open>
  A state that knows a text channel 1 (lobby) and a text channel 7 (general) and a voice
  channel 8 (talk) of guild g, the member 42 of guild g with nickname Al, the mentionable
  roles 5 (mods) and 4 (devs) and a role 6 (staff) that is not mentionable; every other
  lookup misses.
  The voice type is given the number 2.
\<close>

definition notFound :: error where
  "notFound = Error ''state cache not found''"

definition exampleChannel :: "string \<Rightarrow> error + Channel" where
  "exampleChannel channelID =
     (if channelID = ''1'' then
        Inr \<lparr>Channel_ID = ''1'', Channel_GuildID = ''g'', Channel_Name = ''lobby'', Channel_Type = 0\<rparr>
      else if channelID = ''7'' then
        Inr \<lparr>Channel_ID = ''7'', Channel_GuildID = ''g'', Channel_Name = ''general'', Channel_Type = 0\<rparr>
      else if channelID = ''8'' then
        Inr \<lparr>Channel_ID = ''8'', Channel_GuildID = ''g'', Channel_Name = ''talk'', Channel_Type = 2\<rparr>
      else Inl notFound)"

definition exampleMember :: "string \<Rightarrow> string \<Rightarrow> error + Member" where
  "exampleMember guildID userID =
     (if guildID = ''g'' \<and> userID = ''42'' then Inr \<lparr>Nick = ''Al''\<rparr> else Inl notFound)"

definition exampleRole :: "string \<Rightarrow> string \<Rightarrow> error + Role" where
  "exampleRole guildID roleID =
     (if guildID = ''g'' \<and> roleID = ''5'' then
        Inr \<lparr>Role_ID = ''5'', Role_Name = ''mods'', Mentionable = True\<rparr>
      else if guildID = ''g'' \<and> roleID = ''6'' then
        Inr \<lparr>Role_ID = ''6'', Role_Name = ''staff'', Mentionable = False\<rparr>
      else if guildID = ''g'' \<and> roleID = ''4'' then
        Inr \<lparr>Role_ID = ''4'', Role_Name = ''devs'', Mentionable = True\<rparr>
      else Inl notFound)"

definition exampleState :: State where
  "exampleState = \<lparr>Channel = exampleChannel, Member = exampleMember, Role = exampleRole\<rparr>"

definition enabledSession :: Session where
  "enabledSession = \<lparr>StateEnabled = True, State = exampleState\<rparr>"

definition disabledSession :: Session where
  "disabledSession = \<lparr>StateEnabled = False, State = exampleState\<rparr>"

definition alice :: User where
  "alice = \<lparr>User_ID = ''42'', Username = ''alice''\<rparr>"

definition aliceMessage :: Message where
  "aliceMessage =
     \<lparr>ID = ''100'', ChannelID = ''1'', GuildID = ''g'', Content = ''hi <@42> and <@!42>'',
      MentionRoles = [], Mentions = [alice]\<rparr>"

text \<open>
  Further messages: \<open>strandedMessage\<close> sits in a channel the state does not know;
  \<open>nestedMessage\<close> mentions bob and then carol, whose username is \<open>!2\<close>, and wraps carol's
  token in angle brackets; \<open>channelMessage\<close> mentions nobody and names channel 7.
\<close>

definition strandedMessage :: Message where
  "strandedMessage = aliceMessage\<lparr>ChannelID := ''9''\<rparr>"

definition bob :: User where
  "bob = \<lparr>User_ID = ''2'', Username = ''bob''\<rparr>"

definition carol :: User where
  "carol = \<lparr>User_ID = ''1'', Username = ''!2''\<rparr>"

definition nestedMessage :: Message where
  "nestedMessage =
     \<lparr>ID = ''101'', ChannelID = ''1'', GuildID = ''g'', Content = ''<<@1>>'',
      MentionRoles = [], Mentions = [bob, carol]\<rparr>"

definition channelMessage :: Message where
  "channelMessage =
     \<lparr>ID = ''102'', ChannelID = ''1'', GuildID = ''g'', Content = ''see <#7>'',
      MentionRoles = [], Mentions = []\<rparr>"

definition roleMessage :: Message where
  "roleMessage =
     \<lparr>ID = ''103'', ChannelID = ''1'', GuildID = ''g'', Content = ''ping <@&5> <@&6> <@&9>'',
      MentionRoles = [''5'', ''6'', ''9''], Mentions = []\<rparr>"

definition voiceMessage :: Message where
  "voiceMessage =
     \<lparr>ID = ''104'', ChannelID = ''1'', GuildID = ''g'', Content = ''join <#8> or <#9>'',
      MentionRoles = [], Mentions = []\<rparr>"

text \<open>
  \<open>pairMessage\<close> mentions alice and then dan, who is not a member of guild g, in both token
  forms; its own \<open>GuildID\<close> is not the guild of its channel. \<open>teamMessage\<close> lists the roles
  5, 6, 9 and 4.
\<close>

definition dan :: User where
  "dan = \<lparr>User_ID = ''43'', Username = ''dan''\<rparr>"

definition pairMessage :: Message where
  "pairMessage =
     \<lparr>ID = ''105'', ChannelID = ''1'', GuildID = ''elsewhere'',
      Content = ''<@42> <@!42> <@43> <@!43>'', MentionRoles = [], Mentions = [alice, dan]\<rparr>"

definition teamMessage :: Message where
  "teamMessage =
     \<lparr>ID = ''106'', ChannelID = ''1'', GuildID = ''elsewhere'',
      Content = ''<@&5> <@&6> <@&9> <@&4>'', MentionRoles = [''5'', ''6'', ''9'', ''4''],
      Mentions = []\<rparr>"

lemmas example_defs =
  notFound_def exampleChannel_def exampleMember_def exampleRole_def exampleState_def
  enabledSession_def disabledSession_def alice_def aliceMessage_def
  strandedMessage_def bob_def carol_def nestedMessage_def channelMessage_def
  roleMessage_def voiceMessage_def dan_def pairMessage_def teamMessage_def

lemmas model_defs =
  ContentWithMoreMentionsReplaced_def ContentWithMentionsReplaced_def State_Channel_def
  State_Member_def State_Role_def userStep_def roleStep_def channelPass_def channelMention_def
  traced_append_def NewReplacer_def lookup_def strings_Replace_def

section \<open>Facts about the replacer\<close>

lemma lookup_no_prefix:
  "\<forall>t \<in> set (map fst r). \<not> prefix t s \<Longrightarrow> lookup r s = None"
  by (auto simp: lookup_def find_None_iff)

lemma Replace_skip:
  "starts_no_token (map fst r) pre rest \<Longrightarrow> Replace r (pre @ rest) = pre @ Replace r rest"
proof (induction pre)
  case Nil
  then show ?case by simp
next
  case (Cons c cs)
  then have "lookup r (c # cs @ rest) = None"
    by (intro lookup_no_prefix) simp
  with Cons show ?case by simp
qed

lemma Replace_at:
  assumes "lookup r (old @ rest) = Some (old, new)"
  shows "Replace r (old @ rest) = new @ Replace r rest"
proof -
  from assms have "old \<noteq> []"
    by (auto simp: lookup_def find_Some_iff)
  then obtain c cs where old: "old = c # cs"
    by (cases old) auto
  from assms show ?thesis
    unfolding old by simp
qed

lemma Replace_leftmost:
  assumes "starts_no_token (map fst r) pre (old @ rest)"
    and "lookup r (old @ rest) = Some (old, new)"
  shows "Replace r (pre @ old @ rest) = pre @ new @ Replace r rest"
  using Replace_skip [OF assms(1)] Replace_at [OF assms(2)] by simp

lemma not_sublist_starts_no_token:
  "\<forall>t \<in> set toks. \<not> sublist t (pre @ rest) \<Longrightarrow> starts_no_token toks pre rest"
proof (induction pre)
  case Nil
  then show ?case by simp
next
  case (Cons c cs)
  have "\<not> prefix t (c # cs @ rest)" if "t \<in> set toks" for t
    using Cons.prems that by (auto simp: sublist_Cons_right)
  moreover have "\<forall>t \<in> set toks. \<not> sublist t (cs @ rest)"
    using Cons.prems by (auto simp: sublist_Cons_right)
  ultimately show ?case using Cons.IH by simp
qed

lemma Replace_no_occurrence:
  assumes "\<forall>t \<in> set (map fst r). \<not> sublist t s"
  shows "Replace r s = s"
proof -
  have "starts_no_token (map fst r) s []"
    using assms by (intro not_sublist_starts_no_token) simp
  from Replace_skip [OF this] show ?thesis by simp
qed

lemma shifted_not_prefix:
  "a \<noteq> b \<Longrightarrow> \<not> prefix (xs @ [a]) (b # xs @ a # rest)"
  by (induction xs arbitrary: b) auto

lemma userToken_not_prefix_of_userNickToken:
  "\<not> prefix (userToken uid) (userNickToken uid @ rest)"
  using shifted_not_prefix [of "CHR ''>''" "CHR ''!''" uid rest] by simp

lemma lookup_userToken:
  "lookup [(userToken uid, new1), (userNickToken uid, new2)] (userToken uid @ rest)
     = Some (userToken uid, new1)"
  by (simp add: lookup_def)

lemma lookup_userNickToken:
  "lookup [(userToken uid, new1), (userNickToken uid, new2)] (userNickToken uid @ rest)
     = Some (userNickToken uid, new2)"
  using userToken_not_prefix_of_userNickToken [of uid rest] by (simp add: lookup_def)

lemma lookup_single:
  "old \<noteq> [] \<Longrightarrow> lookup [(old, new)] (old @ rest) = Some (old, new)"
  by (simp add: lookup_def)

section \<open>The three ways through ContentWithMoreMentionsReplaced\<close>

lemma enhanced_disabled:
  "\<not> StateEnabled s \<Longrightarrow>
   ContentWithMoreMentionsReplaced v m s = ((ContentWithMentionsReplaced m, None), [])"
  by (simp add: ContentWithMoreMentionsReplaced_def)

lemma enhanced_unresolved:
  "StateEnabled s \<Longrightarrow> Channel (State s) (ChannelID m) = Inl err \<Longrightarrow>
   ContentWithMoreMentionsReplaced v m s =
     ((ContentWithMentionsReplaced m, Some err), [ChannelLookup (ChannelID m)])"
  by (simp add: ContentWithMoreMentionsReplaced_def State_Channel_def)

lemma enhanced_resolved:
  assumes "StateEnabled s" and "Channel (State s) (ChannelID m) = Inr channel"
  shows "ContentWithMoreMentionsReplaced v m s =
     ((fst (channelPass (State s) v
         (fst (rolePass (State s) (Channel_GuildID channel) (MentionRoles m)
            (fst (userPass (State s) (Channel_GuildID channel) (Mentions m) (Content m)))))),
       None),
      ChannelLookup (ChannelID m)
        # snd (userPass (State s) (Channel_GuildID channel) (Mentions m) (Content m))
        @ snd (rolePass (State s) (Channel_GuildID channel) (MentionRoles m)
            (fst (userPass (State s) (Channel_GuildID channel) (Mentions m) (Content m))))
        @ snd (channelPass (State s) v
            (fst (rolePass (State s) (Channel_GuildID channel) (MentionRoles m)
               (fst (userPass (State s) (Channel_GuildID channel) (Mentions m) (Content m)))))))"
  using assms
  by (simp add: ContentWithMoreMentionsReplaced_def State_Channel_def split: prod.splits)

section \<open>Facts about the channel pattern\<close>











lemma channelMention_lookup:
  "snd (channelMention st v mention) = [ChannelLookup (drop 2 (take (length mention - 1) mention))]"
  by (simp add: channelMention_def State_Channel_def split: sum.splits)

lemma channelMention_quiet:
  assumes "case Channel st (drop 2 (take (length mention - 1) mention)) of
             Inl err \<Rightarrow> True | Inr channel \<Rightarrow> Channel_Type channel = v"
  shows "fst (channelMention st v mention) = mention"
  using assms by (simp add: channelMention_def State_Channel_def split: sum.splits)

lemma ReplaceAllStringFunc_quiet:
  assumes "repl = channelMention st v"
    and "\<forall>cid. ChannelLookup cid \<in> set (snd (patternChannels_ReplaceAllStringFunc s repl)) \<longrightarrow>
             (case Channel st cid of Inl err \<Rightarrow> True | Inr channel \<Rightarrow> Channel_Type channel = v)"
  shows "fst (patternChannels_ReplaceAllStringFunc s repl) = s"
  using assms
proof (induction s repl rule: patternChannels_ReplaceAllStringFunc.induct)
  case (1 repl)
  then show ?case by simp
next
  case (2 c cs repl)
  show ?case
  proof (cases "patternChannels_match (c # cs)")
    case None
    with 2 show ?thesis by (simp add: traced_append_def)
  next
    case (Some n)
    let ?mention = "take n (c # cs)"
    have here: "fst (channelMention st v ?mention) = ?mention"
      using "2.prems" Some
      by (intro channelMention_quiet) (simp add: traced_append_def channelMention_lookup)
    have later: "\<forall>cid. ChannelLookup cid
          \<in> set (snd (patternChannels_ReplaceAllStringFunc (drop n (c # cs)) repl)) \<longrightarrow>
        (case Channel st cid of Inl err \<Rightarrow> True | Inr channel \<Rightarrow> Channel_Type channel = v)"
      using "2.prems"(2) Some by (auto simp: traced_append_def)
    have "fst (patternChannels_ReplaceAllStringFunc (drop n (c # cs)) repl) = drop n (c # cs)"
      by (rule "2.IH"(2) [OF Some "2.prems"(1) later])
    with here show ?thesis
      using Some "2.prems"(1) by (simp add: traced_append_def del: take_Suc_Cons drop_Suc_Cons)
  qed
qed

lemma channelPass_quiet:
  assumes "\<forall>cid. ChannelLookup cid \<in> set (snd (channelPass st v s)) \<longrightarrow>
             (case Channel st cid of Inl err \<Rightarrow> True | Inr channel \<Rightarrow> Channel_Type channel = v)"
  shows "fst (channelPass st v s) = s"
  using assms unfolding channelPass_def by (intro ReplaceAllStringFunc_quiet [OF refl])

section \<open>The loops over the mentioned users and roles\<close>

lemma userPass_Cons_content:
  "fst (userPass st g (u # users) content) =
     fst (userPass st g users (fst (userStep st g u content)))"
  by (simp split: prod.splits)

lemma userStep_lookups:
  "snd (userStep st g u content) = [MemberLookup g (User_ID u)]"
  by (simp add: userStep_def State_Member_def)

lemma userPass_Cons_lookups:
  "snd (userPass st g (u # users) content) =
     snd (userStep st g u content) @ snd (userPass st g users (fst (userStep st g u content)))"
  by (simp split: prod.splits)

lemma userPass_append_content:
  "fst (userPass st g (before @ after) content) =
     fst (userPass st g after (fst (userPass st g before content)))"
proof (induction before arbitrary: content)
  case Nil
  show ?case by simp
next
  case (Cons u before)
  have "fst (userPass st g ((u # before) @ after) content) =
      fst (userPass st g (before @ after) (fst (userStep st g u content)))"
    unfolding append_Cons userPass_Cons_content ..
  also have "\<dots> = fst (userPass st g after (fst (userPass st g before (fst (userStep st g u content)))))"
    by (rule Cons.IH)
  also have "\<dots> = fst (userPass st g after (fst (userPass st g (u # before) content)))"
    unfolding userPass_Cons_content ..
  finally show ?case .
qed

lemma userPass_member:
  "fst (userPass st g (before @ u # after) content) =
     fst (userPass st g after (fst (userStep st g u (fst (userPass st g before content)))))"
  unfolding userPass_append_content userPass_Cons_content ..

lemma userPass_lookups:
  "snd (userPass st g users content) = map (\<lambda>user. MemberLookup g (User_ID user)) users"
proof (induction users arbitrary: content)
  case Nil
  show ?case by simp
next
  case (Cons u users)
  show ?case
    unfolding userPass_Cons_lookups userStep_lookups Cons.IH by simp
qed


lemma rolePass_Cons_content:
  "fst (rolePass st g (rid # rids) content) =
     fst (rolePass st g rids (fst (roleStep st g rid content)))"
  by (simp split: prod.splits)

lemma roleStep_lookups:
  "snd (roleStep st g rid content) = [RoleLookup g rid]"
  by (simp add: roleStep_def State_Role_def split: sum.splits)

lemma rolePass_Cons_lookups:
  "snd (rolePass st g (rid # rids) content) =
     snd (roleStep st g rid content) @ snd (rolePass st g rids (fst (roleStep st g rid content)))"
  by (simp split: prod.splits)

lemma rolePass_append_content:
  "fst (rolePass st g (before @ after) content) =
     fst (rolePass st g after (fst (rolePass st g before content)))"
proof (induction before arbitrary: content)
  case Nil
  show ?case by simp
next
  case (Cons rid before)
  have "fst (rolePass st g ((rid # before) @ after) content) =
      fst (rolePass st g (before @ after) (fst (roleStep st g rid content)))"
    unfolding append_Cons rolePass_Cons_content ..
  also have "\<dots> = fst (rolePass st g after (fst (rolePass st g before (fst (roleStep st g rid content)))))"
    by (rule Cons.IH)
  also have "\<dots> = fst (rolePass st g after (fst (rolePass st g (rid # before) content)))"
    unfolding rolePass_Cons_content ..
  finally show ?case .
qed

lemma rolePass_member:
  "fst (rolePass st g (before @ rid # after) content) =
     fst (rolePass st g after (fst (roleStep st g rid (fst (rolePass st g before content)))))"
  unfolding rolePass_append_content rolePass_Cons_content ..

lemma rolePass_lookups:
  "snd (rolePass st g rids content) = map (RoleLookup g) rids"
proof (induction rids arbitrary: content)
  case Nil
  show ?case by simp
next
  case (Cons rid rids)
  show ?case
    unfolding rolePass_Cons_lookups roleStep_lookups Cons.IH by simp
qed


lemma enhanced_resolved_passes:
  assumes "StateEnabled s" and "Channel (State s) (ChannelID m) = Inr channel"
  shows "ContentWithMoreMentionsReplaced v m s =
     ((fst (channelPass (State s) v
         (fst (rolePass (State s) (Channel_GuildID channel) (MentionRoles m)
            (fst (userPass (State s) (Channel_GuildID channel) (Mentions m) (Content m)))))),
       None),
      ChannelLookup (ChannelID m)
        # map (\<lambda>user. MemberLookup (Channel_GuildID channel) (User_ID user)) (Mentions m)
        @ map (RoleLookup (Channel_GuildID channel)) (MentionRoles m)
        @ snd (channelPass (State s) v
            (fst (rolePass (State s) (Channel_GuildID channel) (MentionRoles m)
               (fst (userPass (State s) (Channel_GuildID channel) (Mentions m) (Content m)))))))"
  unfolding enhanced_resolved [OF assms] userPass_lookups rolePass_lookups ..

section \<open>Reference\<close>

text \<open>
  C9. For every message, \<open>Reference\<close> returns the reference whose GuildID, ChannelID and
  MessageID are the message's GuildID, ChannelID and ID. It takes the message alone (no
  session, no state) and is a total function without an error result.
\<close>

theorem Reference_projects_fields:
  "Ref_GuildID (Reference m) = GuildID m
   \<and> Ref_ChannelID (Reference m) = ChannelID m
   \<and> Ref_MessageID (Reference m) = ID m"
  by (simp add: Reference_def)

section \<open>The state cache switched off\<close>

text \<open>
  C3. For every message, when \<open>StateEnabled\<close> is false, \<open>ContentWithMoreMentionsReplaced\<close>
  returns the string that \<open>ContentWithMentionsReplaced\<close> returns, with a nil error, and makes
  no Channel, Member or Role lookup: the list of lookups is empty.
\<close>

theorem disabled_state_is_basic:
  "\<not> StateEnabled s \<Longrightarrow>
   ContentWithMoreMentionsReplaced v m s = ((ContentWithMentionsReplaced m, None), [])"
  by (simp add: ContentWithMoreMentionsReplaced_def)

theorem disabled_state_is_basic_witness:
  "\<not> StateEnabled disabledSession
   \<and> ContentWithMentionsReplaced aliceMessage = ''hi @alice and @alice''
   \<and> ContentWithMoreMentionsReplaced 2 aliceMessage disabledSession
       = ((''hi @alice and @alice'', None), [])"
proof -
  have off: "\<not> StateEnabled disabledSession"
    by (simp add: disabledSession_def)
  have basic: "ContentWithMentionsReplaced aliceMessage = ''hi @alice and @alice''"
    by (simp add: ContentWithMentionsReplaced_def NewReplacer_def lookup_def aliceMessage_def alice_def)
  from disabled_state_is_basic [OF off, of 2 aliceMessage] off basic show ?thesis
    by simp
qed

section \<open>The channel of the message is not in the state\<close>

text \<open>
  C1 as stated asks for a nil error when the lookup of the message's channel fails. The
  function returns the error of that lookup: in \<open>exampleState\<close> channel 9 is unknown, and the
  error returned for \<open>strandedMessage\<close> is not nil.
\<close>

theorem unresolved_channel_error_counterexample:
  "StateEnabled enabledSession
   \<and> Channel (State enabledSession) (ChannelID strandedMessage) = Inl notFound
   \<and> snd (fst (ContentWithMoreMentionsReplaced 2 strandedMessage enabledSession)) \<noteq> None"
  by (simp add: ContentWithMoreMentionsReplaced_def State_Channel_def example_defs)

text \<open>
  C1, amended. For every message and every state in which the lookup of the message's
  channel fails, \<open>ContentWithMoreMentionsReplaced\<close> with the state enabled returns the
  string that \<open>ContentWithMentionsReplaced\<close> returns, together with the error of the failed
  lookup; that lookup is the only one it makes.
\<close>

theorem unresolved_channel_returns_basic_and_error:
  assumes "StateEnabled s" and "Channel (State s) (ChannelID m) = Inl err"
  shows "ContentWithMoreMentionsReplaced v m s =
     ((ContentWithMentionsReplaced m, Some err), [ChannelLookup (ChannelID m)])"
  using assms by (simp add: ContentWithMoreMentionsReplaced_def State_Channel_def)

theorem unresolved_channel_returns_basic_and_error_witness:
  "StateEnabled enabledSession
   \<and> Channel (State enabledSession) (ChannelID strandedMessage) = Inl notFound
   \<and> ContentWithMoreMentionsReplaced 2 strandedMessage enabledSession
       = ((''hi @alice and @alice'', Some notFound), [ChannelLookup ''9''])"
proof -
  have on: "StateEnabled enabledSession"
    by (simp add: example_defs)
  have miss: "Channel (State enabledSession) (ChannelID strandedMessage) = Inl notFound"
    by (simp add: example_defs)
  have basic: "ContentWithMentionsReplaced strandedMessage = ''hi @alice and @alice''"
    by (simp add: ContentWithMentionsReplaced_def NewReplacer_def lookup_def example_defs)
  have "ChannelID strandedMessage = ''9''"
    by (simp add: example_defs)
  with unresolved_channel_returns_basic_and_error [OF on miss, of 2] on miss basic
  show ?thesis by simp
qed

section \<open>ContentWithMentionsReplaced\<close>

text \<open>
  C8. For a message with content \<open>hi <@42> and <@!42>\<close> whose \<open>Mentions\<close> are exactly the
  user with ID 42 and username alice, \<open>ContentWithMentionsReplaced\<close> returns
  \<open>hi @alice and @alice\<close>: both forms of the token become \<open>@Username\<close>. The other fields
  of the message are arbitrary.
\<close>

theorem basic_replaces_both_forms_example:
  "ContentWithMentionsReplaced
     (m\<lparr>Content := ''hi <@42> and <@!42>'',
        Mentions := [\<lparr>User_ID = ''42'', Username = ''alice''\<rparr>]\<rparr>)
   = ''hi @alice and @alice''"
  by (simp add: ContentWithMentionsReplaced_def NewReplacer_def lookup_def)

text \<open>
  C7 as stated says that a second application to the result (same \<open>Mentions\<close>) changes
  nothing. The replacement text is not scanned again within one application, so it can
  complete a token that only a second application sees: in \<open>nestedMessage\<close> the content
  \<open><<@1>>\<close> becomes \<open><@!2>\<close>, bob's token, once bob has already been handled; the second
  application turns it into \<open>@bob\<close>.
\<close>

theorem basic_not_idempotent_counterexample:
  "ContentWithMentionsReplaced nestedMessage = ''<@!2>''
   \<and> ContentWithMentionsReplaced (nestedMessage\<lparr>Content := ContentWithMentionsReplaced nestedMessage\<rparr>)
       = ''@bob''
   \<and> ContentWithMentionsReplaced (nestedMessage\<lparr>Content := ContentWithMentionsReplaced nestedMessage\<rparr>)
       \<noteq> ContentWithMentionsReplaced nestedMessage"
  by (simp add: ContentWithMentionsReplaced_def NewReplacer_def lookup_def example_defs)

lemma basic_fold_no_occurrence:
  assumes "\<forall>user \<in> set users.
      \<not> sublist (userToken (User_ID user)) content \<and> \<not> sublist (userNickToken (User_ID user)) content"
  shows "fold (\<lambda>user content.
        Replace (NewReplacer
          [(''<@'' @ User_ID user @ ''>'', ''@'' @ Username user),
           (''<@!'' @ User_ID user @ ''>'', ''@'' @ Username user)]) content) users content = content"
  using assms
proof (induction users)
  case Nil
  then show ?case by simp
next
  case (Cons user users)
  have "Replace (NewReplacer
          [(''<@'' @ User_ID user @ ''>'', ''@'' @ Username user),
           (''<@!'' @ User_ID user @ ''>'', ''@'' @ Username user)]) content = content"
    unfolding NewReplacer_def using Cons.prems by (intro Replace_no_occurrence) simp
  with Cons show ?case by simp
qed

text \<open>
  C7, amended. For every message, if the result of \<open>ContentWithMentionsReplaced\<close> contains
  no token \<open><@ID>\<close> or \<open><@!ID>\<close> of a user of \<open>Mentions\<close>, applying it a second time to that
  result (same \<open>Mentions\<close>) returns the result unchanged.
\<close>

theorem basic_idempotent_without_new_tokens:
  assumes "\<forall>user \<in> set (Mentions m).
      \<not> sublist (userToken (User_ID user)) (ContentWithMentionsReplaced m)
      \<and> \<not> sublist (userNickToken (User_ID user)) (ContentWithMentionsReplaced m)"
  shows "ContentWithMentionsReplaced (m\<lparr>Content := ContentWithMentionsReplaced m\<rparr>)
     = ContentWithMentionsReplaced m"
  using basic_fold_no_occurrence [OF assms]
  by (simp add: ContentWithMentionsReplaced_def [of "m\<lparr>Content := ContentWithMentionsReplaced m\<rparr>"])

theorem basic_idempotent_without_new_tokens_witness:
  "ContentWithMentionsReplaced aliceMessage = ''hi @alice and @alice''
   \<and> \<not> sublist ''<@42>'' ''hi @alice and @alice''
   \<and> \<not> sublist ''<@!42>'' ''hi @alice and @alice''
   \<and> ContentWithMentionsReplaced (aliceMessage\<lparr>Content := ''hi @alice and @alice''\<rparr>)
       = ''hi @alice and @alice''"
proof -
  have basic: "ContentWithMentionsReplaced aliceMessage = ''hi @alice and @alice''"
    by (simp add: ContentWithMentionsReplaced_def NewReplacer_def lookup_def aliceMessage_def alice_def)
  have bare: "\<not> sublist ''<@42>'' ''hi @alice and @alice''"
    by (simp add: sublist_Cons_right)
  have nick: "\<not> sublist ''<@!42>'' ''hi @alice and @alice''"
    by (simp add: sublist_Cons_right)
  have "\<forall>user \<in> set (Mentions aliceMessage).
      \<not> sublist (userToken (User_ID user)) (ContentWithMentionsReplaced aliceMessage)
      \<and> \<not> sublist (userNickToken (User_ID user)) (ContentWithMentionsReplaced aliceMessage)"
    unfolding basic using bare nick by (simp add: aliceMessage_def alice_def)
  from basic_idempotent_without_new_tokens [OF this] basic bare nick show ?thesis
    by simp
qed

section \<open>The user pass\<close>

lemma userStep_with_nick:
  assumes "Member st g (User_ID u) = Inr member" and "Nick member \<noteq> []"
  shows "userStep st g u content =
     (Replace [(userToken (User_ID u), ''@'' @ Username u),
               (userNickToken (User_ID u), ''@'' @ Nick member)] content,
      [MemberLookup g (User_ID u)])"
  using assms by (simp add: userStep_def State_Member_def NewReplacer_def)

lemma userStep_without_nick:
  assumes "Member st g (User_ID u) = Inl err
           \<or> (Member st g (User_ID u) = Inr member \<and> Nick member = [])"
  shows "userStep st g u content =
     (Replace [(userToken (User_ID u), ''@'' @ Username u),
               (userNickToken (User_ID u), ''@'' @ Username u)] content,
      [MemberLookup g (User_ID u)])"
  using assms by (auto simp: userStep_def State_Member_def NewReplacer_def)

lemma userStep_Replace:
  "\<exists>nick. \<forall>content. fst (userStep st g u content) =
     Replace [(userToken (User_ID u), ''@'' @ Username u),
              (userNickToken (User_ID u), ''@'' @ nick)] content"
  by (auto simp: userStep_def State_Member_def NewReplacer_def split: sum.splits)

lemma userStep_bare:
  assumes "starts_no_token [userToken (User_ID u), userNickToken (User_ID u)] pre
             (userToken (User_ID u) @ rest)"
  shows "fst (userStep st g u (pre @ userToken (User_ID u) @ rest)) =
     pre @ (''@'' @ Username u) @ fst (userStep st g u rest)"
proof -
  obtain nick where eq: "\<And>content. fst (userStep st g u content) =
     Replace [(userToken (User_ID u), ''@'' @ Username u),
              (userNickToken (User_ID u), ''@'' @ nick)] content"
    using userStep_Replace by blast
  have "starts_no_token
      (map fst [(userToken (User_ID u), ''@'' @ Username u),
                (userNickToken (User_ID u), ''@'' @ nick)]) pre (userToken (User_ID u) @ rest)"
    using assms by simp
  from Replace_leftmost [OF this lookup_userToken] show ?thesis
    unfolding eq .
qed

lemma userStep_nick_token:
  assumes eq: "\<And>content. fst (userStep st g u content) =
     Replace [(userToken (User_ID u), ''@'' @ Username u),
              (userNickToken (User_ID u), ''@'' @ nick)] content"
    and "starts_no_token [userToken (User_ID u), userNickToken (User_ID u)] pre
             (userNickToken (User_ID u) @ rest)"
  shows "fst (userStep st g u (pre @ userNickToken (User_ID u) @ rest)) =
     pre @ (''@'' @ nick) @ fst (userStep st g u rest)"
proof -
  have "starts_no_token
      (map fst [(userToken (User_ID u), ''@'' @ Username u),
                (userNickToken (User_ID u), ''@'' @ nick)]) pre (userNickToken (User_ID u) @ rest)"
    using assms(2) by simp
  from Replace_leftmost [OF this lookup_userNickToken] show ?thesis
    unfolding eq .
qed

lemma userStep_untouched:
  assumes "starts_no_token [userToken (User_ID u), userNickToken (User_ID u)] content []"
  shows "fst (userStep st g u content) = content"
proof -
  obtain nick where eq: "\<And>content. fst (userStep st g u content) =
     Replace [(userToken (User_ID u), ''@'' @ Username u),
              (userNickToken (User_ID u), ''@'' @ nick)] content"
    using userStep_Replace by blast
  have "starts_no_token
      (map fst [(userToken (User_ID u), ''@'' @ Username u),
                (userNickToken (User_ID u), ''@'' @ nick)]) content []"
    using assms by simp
  from Replace_skip [OF this] show ?thesis
    unfolding eq by simp
qed

lemma userStep_replaces_tokens:
  "(starts_no_token [userToken (User_ID u), userNickToken (User_ID u)] pre
        (userToken (User_ID u) @ rest) \<longrightarrow>
      fst (userStep st g u (pre @ userToken (User_ID u) @ rest)) =
        pre @ (''@'' @ Username u) @ fst (userStep st g u rest))
   \<and> (Member st g (User_ID u) = Inr member \<and> Nick member \<noteq> []
      \<and> starts_no_token [userToken (User_ID u), userNickToken (User_ID u)] pre
        (userNickToken (User_ID u) @ rest) \<longrightarrow>
      fst (userStep st g u (pre @ userNickToken (User_ID u) @ rest)) =
        pre @ (''@'' @ Nick member) @ fst (userStep st g u rest))
   \<and> ((Member st g (User_ID u) = Inl err
        \<or> (Member st g (User_ID u) = Inr member \<and> Nick member = []))
      \<and> starts_no_token [userToken (User_ID u), userNickToken (User_ID u)] pre
        (userNickToken (User_ID u) @ rest) \<longrightarrow>
      fst (userStep st g u (pre @ userNickToken (User_ID u) @ rest)) =
        pre @ (''@'' @ Username u) @ fst (userStep st g u rest))
   \<and> (starts_no_token [userToken (User_ID u), userNickToken (User_ID u)] content [] \<longrightarrow>
      fst (userStep st g u content) = content)"
proof (intro conjI impI)
  assume "starts_no_token [userToken (User_ID u), userNickToken (User_ID u)] pre
        (userToken (User_ID u) @ rest)"
  then show "fst (userStep st g u (pre @ userToken (User_ID u) @ rest)) =
        pre @ (''@'' @ Username u) @ fst (userStep st g u rest)"
    by (rule userStep_bare)
next
  assume a: "Member st g (User_ID u) = Inr member \<and> Nick member \<noteq> []
      \<and> starts_no_token [userToken (User_ID u), userNickToken (User_ID u)] pre
        (userNickToken (User_ID u) @ rest)"
  then have "\<And>content. fst (userStep st g u content) =
     Replace [(userToken (User_ID u), ''@'' @ Username u),
              (userNickToken (User_ID u), ''@'' @ Nick member)] content"
    using userStep_with_nick [of st g u member] by simp
  with a show "fst (userStep st g u (pre @ userNickToken (User_ID u) @ rest)) =
        pre @ (''@'' @ Nick member) @ fst (userStep st g u rest)"
    by (intro userStep_nick_token) simp_all
next
  assume a: "(Member st g (User_ID u) = Inl err
        \<or> (Member st g (User_ID u) = Inr member \<and> Nick member = []))
      \<and> starts_no_token [userToken (User_ID u), userNickToken (User_ID u)] pre
        (userNickToken (User_ID u) @ rest)"
  then have "\<And>content. fst (userStep st g u content) =
     Replace [(userToken (User_ID u), ''@'' @ Username u),
              (userNickToken (User_ID u), ''@'' @ Username u)] content"
    using userStep_without_nick [of st g u err member] by simp
  with a show "fst (userStep st g u (pre @ userNickToken (User_ID u) @ rest)) =
        pre @ (''@'' @ Username u) @ fst (userStep st g u rest)"
    by (intro userStep_nick_token) simp_all
next
  assume "starts_no_token [userToken (User_ID u), userNickToken (User_ID u)] content []"
  then show "fst (userStep st g u content) = content"
    by (rule userStep_untouched)
qed

text \<open>
  C4. With the state enabled and the message's channel resolved, the result of
  \<open>ContentWithMoreMentionsReplaced\<close> is the channel pass of the role pass of the user pass
  of the content, the user pass running over \<open>Mentions\<close> in the guild of the resolved
  channel and making one Member lookup in that guild per mentioned user, in order. The
  user pass does the step of every mentioned user: for every user \<open>u\<close> of the list, wherever
  it stands, the pass is the step of \<open>u\<close> on the content as the users before \<open>u\<close> left
  it, followed by the users behind \<open>u\<close>. The step of \<open>u\<close> rewrites its content from left
  to right: the leftmost token \<open><@ID>\<close> becomes \<open>@Username\<close>, whatever the Member lookup
  returns; the leftmost token \<open><@!ID>\<close> becomes \<open>@Nick\<close> if the lookup succeeds with a
  non-empty nickname, and \<open>@Username\<close> if the lookup fails or the nickname is empty; the
  text in front of it is kept and the rest is rewritten in the same way; a content in which
  neither token occurs is returned as it is. So for every mentioned user every occurrence
  of either token, taken leftmost first and without overlap, is replaced as the claim says.
\<close>

theorem user_pass_replaces_tokens:
  "(starts_no_token [userToken (User_ID u), userNickToken (User_ID u)] pre
        (userToken (User_ID u) @ rest) \<longrightarrow>
      fst (userStep st g u (pre @ userToken (User_ID u) @ rest)) =
        pre @ (''@'' @ Username u) @ fst (userStep st g u rest))
   \<and> (Member st g (User_ID u) = Inr member \<and> Nick member \<noteq> []
      \<and> starts_no_token [userToken (User_ID u), userNickToken (User_ID u)] pre
        (userNickToken (User_ID u) @ rest) \<longrightarrow>
      fst (userStep st g u (pre @ userNickToken (User_ID u) @ rest)) =
        pre @ (''@'' @ Nick member) @ fst (userStep st g u rest))
   \<and> ((Member st g (User_ID u) = Inl err
        \<or> (Member st g (User_ID u) = Inr member \<and> Nick member = []))
      \<and> starts_no_token [userToken (User_ID u), userNickToken (User_ID u)] pre
        (userNickToken (User_ID u) @ rest) \<longrightarrow>
      fst (userStep st g u (pre @ userNickToken (User_ID u) @ rest)) =
        pre @ (''@'' @ Username u) @ fst (userStep st g u rest))
   \<and> (starts_no_token [userToken (User_ID u), userNickToken (User_ID u)] content [] \<longrightarrow>
      fst (userStep st g u content) = content)
   \<and> snd (userStep st g u content) = [MemberLookup g (User_ID u)]
   \<and> userPass st g [] content = (content, [])
   \<and> fst (userPass st g (before @ u # after) content) =
       fst (userPass st g after (fst (userStep st g u (fst (userPass st g before content)))))
   \<and> snd (userPass st g users content) = map (\<lambda>user. MemberLookup g (User_ID user)) users
   \<and> (StateEnabled s \<and> Channel (State s) (ChannelID m) = Inr channel \<longrightarrow>
      ContentWithMoreMentionsReplaced v m s =
        ((fst (channelPass (State s) v
            (fst (rolePass (State s) (Channel_GuildID channel) (MentionRoles m)
               (fst (userPass (State s) (Channel_GuildID channel) (Mentions m) (Content m)))))),
          None),
         ChannelLookup (ChannelID m)
           # map (\<lambda>user. MemberLookup (Channel_GuildID channel) (User_ID user)) (Mentions m)
           @ map (RoleLookup (Channel_GuildID channel)) (MentionRoles m)
           @ snd (channelPass (State s) v
               (fst (rolePass (State s) (Channel_GuildID channel) (MentionRoles m)
                  (fst (userPass (State s) (Channel_GuildID channel) (Mentions m)
                     (Content m))))))))"
proof -
  have pass: "snd (userStep st g u content) = [MemberLookup g (User_ID u)]
     \<and> userPass st g [] content = (content, [])
     \<and> fst (userPass st g (before @ u # after) content) =
         fst (userPass st g after (fst (userStep st g u (fst (userPass st g before content)))))
     \<and> snd (userPass st g users content) = map (\<lambda>user. MemberLookup g (User_ID user)) users
     \<and> (StateEnabled s \<and> Channel (State s) (ChannelID m) = Inr channel \<longrightarrow>
        ContentWithMoreMentionsReplaced v m s =
          ((fst (channelPass (State s) v
              (fst (rolePass (State s) (Channel_GuildID channel) (MentionRoles m)
                 (fst (userPass (State s) (Channel_GuildID channel) (Mentions m) (Content m)))))),
            None),
           ChannelLookup (ChannelID m)
             # map (\<lambda>user. MemberLookup (Channel_GuildID channel) (User_ID user)) (Mentions m)
             @ map (RoleLookup (Channel_GuildID channel)) (MentionRoles m)
             @ snd (channelPass (State s) v
                 (fst (rolePass (State s) (Channel_GuildID channel) (MentionRoles m)
                    (fst (userPass (State s) (Channel_GuildID channel) (Mentions m)
                       (Content m))))))))"
    by (simp add: userStep_lookups userPass_member userPass_lookups enhanced_resolved_passes)
  from conjI [OF userStep_replaces_tokens pass] show ?thesis
    unfolding conj_assoc .
qed

theorem user_pass_replaces_tokens_witness:
  "Member exampleState ''g'' (User_ID alice) = Inr \<lparr>Nick = ''Al''\<rparr>
   \<and> fst (userStep exampleState ''g'' alice ''hi <@42> and <@!42>'') = ''hi @alice and @Al''
   \<and> Member exampleState ''g'' (User_ID bob) = Inl notFound
   \<and> fst (userStep exampleState ''g'' bob ''<@2> or <@!2>'') = ''@bob or @bob''
   \<and> fst (fst (ContentWithMoreMentionsReplaced 2 aliceMessage enabledSession))
       = ''hi @alice and @Al''
   \<and> fst (userPass exampleState ''g'' [alice, dan] ''<@42> <@!42> <@43> <@!43>'')
       = ''@alice @Al @dan @dan''
   \<and> StateEnabled enabledSession
   \<and> Channel (State enabledSession) (ChannelID pairMessage) =
       Inr \<lparr>Channel_ID = ''1'', Channel_GuildID = ''g'', Channel_Name = ''lobby'', Channel_Type = 0\<rparr>
   \<and> ContentWithMoreMentionsReplaced 2 pairMessage enabledSession
       = ((''@alice @Al @dan @dan'', None),
          [ChannelLookup ''1'', MemberLookup ''g'' ''42'', MemberLookup ''g'' ''43''])"
proof -
  note defs = alice_def bob_def exampleState_def exampleMember_def notFound_def
  let ?lobby = "\<lparr>Channel_ID = ''1'', Channel_GuildID = ''g'', Channel_Name = ''lobby'', Channel_Type = 0\<rparr>"
  have member: "Member exampleState ''g'' (User_ID alice) = Inr \<lparr>Nick = ''Al''\<rparr>"
    by (simp add: defs)
  have missing: "Member exampleState ''g'' (User_ID bob) = Inl notFound"
    by (simp add: defs)
  have on: "StateEnabled enabledSession"
    by (simp add: example_defs)
  have lobby: "Channel (State enabledSession) (ChannelID pairMessage) = Inr ?lobby"
    by (simp add: example_defs)
  have alice_step: "fst (userStep exampleState ''g'' alice ''hi <@42> and <@!42>'') = ''hi @alice and @Al''"
    using member
      user_pass_replaces_tokens [where u = alice and st = exampleState and g = "''g''"
        and pre = "''hi ''" and rest = "'' and <@!42>''" and content = "[]"
        and member = "\<lparr>Nick = ''Al''\<rparr>"]
      user_pass_replaces_tokens [where u = alice and st = exampleState and g = "''g''"
        and pre = "'' and ''" and rest = "[]" and content = "[]"
        and member = "\<lparr>Nick = ''Al''\<rparr>"]
    by (simp add: alice_def)
  have bob_step: "fst (userStep exampleState ''g'' bob ''<@2> or <@!2>'') = ''@bob or @bob''"
    using missing
      user_pass_replaces_tokens [where u = bob and st = exampleState and g = "''g''"
        and pre = "[]" and rest = "'' or <@!2>''" and content = "[]" and err = notFound]
      user_pass_replaces_tokens [where u = bob and st = exampleState and g = "''g''"
        and pre = "'' or ''" and rest = "[]" and content = "[]" and err = notFound]
    by (simp add: bob_def)
  have single: "fst (fst (ContentWithMoreMentionsReplaced 2 aliceMessage enabledSession))
       = ''hi @alice and @Al''"
    by (simp add: model_defs example_defs)
  have first: "fst (userStep exampleState ''g'' alice ''<@42> <@!42> <@43> <@!43>'')
       = ''@alice @Al <@43> <@!43>''"
    by (simp add: userStep_def State_Member_def NewReplacer_def lookup_def defs)
  have second: "fst (userStep exampleState ''g'' dan ''@alice @Al <@43> <@!43>'')
       = ''@alice @Al @dan @dan''"
    by (simp add: userStep_def State_Member_def NewReplacer_def lookup_def defs dan_def)
  have pair: "fst (userPass exampleState ''g'' [alice, dan] ''<@42> <@!42> <@43> <@!43>'')
       = ''@alice @Al @dan @dan''"
    using first second
      user_pass_replaces_tokens [where st = exampleState and g = "''g''" and before = "[alice]"
        and u = dan and after = "[]" and content = "''<@42> <@!42> <@43> <@!43>''"]
      user_pass_replaces_tokens [where st = exampleState and g = "''g''" and before = "[]"
        and u = alice and after = "[]" and content = "''<@42> <@!42> <@43> <@!43>''"]
      user_pass_replaces_tokens [where st = exampleState and g = "''g''"
        and content = "''@alice @Al @dan @dan''"]
    by simp
  have quiet: "channelPass exampleState 2 ''@alice @Al @dan @dan'' = (''@alice @Al @dan @dan'', [])"
    by (simp add: channelPass_def traced_append_def)
  have whole: "ContentWithMoreMentionsReplaced 2 pairMessage enabledSession
       = ((''@alice @Al @dan @dan'', None),
          [ChannelLookup ''1'', MemberLookup ''g'' ''42'', MemberLookup ''g'' ''43''])"
  proof -
    have fields: "Mentions pairMessage = [alice, dan]" "MentionRoles pairMessage = []"
        "Content pairMessage = ''<@42> <@!42> <@43> <@!43>''" "ChannelID pairMessage = ''1''"
        "State enabledSession = exampleState"
      by (simp_all add: pairMessage_def enabledSession_def)
    from on lobby
      user_pass_replaces_tokens [where s = enabledSession and m = pairMessage and v = 2
        and channel = ?lobby]
    have "ContentWithMoreMentionsReplaced 2 pairMessage enabledSession =
        ((fst (channelPass exampleState 2
            (fst (rolePass exampleState ''g'' []
               (fst (userPass exampleState ''g'' [alice, dan] ''<@42> <@!42> <@43> <@!43>''))))),
          None),
         ChannelLookup ''1''
           # map (\<lambda>user. MemberLookup ''g'' (User_ID user)) [alice, dan]
           @ map (RoleLookup ''g'') []
           @ snd (channelPass exampleState 2
               (fst (rolePass exampleState ''g'' []
                  (fst (userPass exampleState ''g'' [alice, dan] ''<@42> <@!42> <@43> <@!43>''))))))"
      unfolding fields by simp
    then show ?thesis
      unfolding pair by (simp add: quiet alice_def dan_def)
  qed
  from member alice_step missing bob_step single pair on lobby whole show ?thesis
    by (intro conjI)
qed

section \<open>The role pass\<close>

lemma roleStep_skip:
  assumes "Role st g rid = Inl err \<or> (Role st g rid = Inr role \<and> \<not> Mentionable role)"
  shows "roleStep st g rid content = (content, [RoleLookup g rid])"
  using assms by (auto simp: roleStep_def State_Role_def)

lemma roleStep_replace:
  assumes "Role st g rid = Inr role" and "Mentionable role"
  shows "roleStep st g rid content =
     (Replace [(roleToken (Role_ID role), ''@'' @ Role_Name role)] content, [RoleLookup g rid])"
  using assms by (simp add: roleStep_def State_Role_def strings_Replace_def)

lemma rolePass_all_skipped:
  assumes "\<forall>rid \<in> set rids.
      (case Role st g rid of Inl err \<Rightarrow> True | Inr role \<Rightarrow> \<not> Mentionable role)"
  shows "fst (rolePass st g rids content) = content"
  using assms
proof (induction rids arbitrary: content)
  case Nil
  then show ?case by simp
next
  case (Cons rid rids)
  then have step: "fst (roleStep st g rid content) = content"
    by (auto simp: roleStep_def State_Role_def split: sum.splits)
  have "fst (rolePass st g rids content) = content"
    using Cons.prems by (intro Cons.IH) simp
  then show ?case
    unfolding rolePass_Cons_content step .
qed

lemma enhanced_error:
  "snd (fst (ContentWithMoreMentionsReplaced v m s)) =
     (if StateEnabled s
      then (case Channel (State s) (ChannelID m) of Inl err \<Rightarrow> Some err | Inr channel \<Rightarrow> None)
      else None)"
  by (simp add: ContentWithMoreMentionsReplaced_def State_Channel_def split: sum.splits prod.splits)

lemma roleStep_skips_or_replaces:
  "((Role st g rid = Inl err \<or> (Role st g rid = Inr role \<and> \<not> Mentionable role)) \<longrightarrow>
      fst (roleStep st g rid content) = content)
   \<and> ((\<forall>rid \<in> set rids.
         (case Role st g rid of Inl err \<Rightarrow> True | Inr role \<Rightarrow> \<not> Mentionable role)) \<longrightarrow>
      fst (rolePass st g rids content) = content)
   \<and> (Role st g rid = Inr role \<and> Mentionable role \<and> Role_ID role = rid
      \<and> starts_no_token [roleToken rid] pre (roleToken rid @ rest) \<longrightarrow>
      fst (roleStep st g rid (pre @ roleToken rid @ rest)) =
        pre @ (''@'' @ Role_Name role) @ fst (roleStep st g rid rest))
   \<and> (Role st g rid = Inr role \<and> Mentionable role \<and> Role_ID role = rid
      \<and> starts_no_token [roleToken rid] content [] \<longrightarrow>
      fst (roleStep st g rid content) = content)
   \<and> snd (fst (ContentWithMoreMentionsReplaced v m s)) =
       (if StateEnabled s
        then (case Channel (State s) (ChannelID m) of Inl err \<Rightarrow> Some err | Inr channel \<Rightarrow> None)
        else None)"
proof (intro conjI impI)
  assume "Role st g rid = Inl err \<or> (Role st g rid = Inr role \<and> \<not> Mentionable role)"
  then show "fst (roleStep st g rid content) = content"
    by (simp add: roleStep_skip)
next
  assume "\<forall>rid \<in> set rids.
         (case Role st g rid of Inl err \<Rightarrow> True | Inr role \<Rightarrow> \<not> Mentionable role)"
  then show "fst (rolePass st g rids content) = content"
    by (rule rolePass_all_skipped)
next
  assume a: "Role st g rid = Inr role \<and> Mentionable role \<and> Role_ID role = rid
      \<and> starts_no_token [roleToken rid] pre (roleToken rid @ rest)"
  then have eq: "\<And>content. fst (roleStep st g rid content) =
      Replace [(roleToken rid, ''@'' @ Role_Name role)] content"
    using roleStep_replace [of st g rid role] by simp
  have "starts_no_token (map fst [(roleToken rid, ''@'' @ Role_Name role)]) pre (roleToken rid @ rest)"
    using a by simp
  moreover have "lookup [(roleToken rid, ''@'' @ Role_Name role)] (roleToken rid @ rest)
      = Some (roleToken rid, ''@'' @ Role_Name role)"
    by (rule lookup_single) simp
  ultimately show "fst (roleStep st g rid (pre @ roleToken rid @ rest)) =
        pre @ (''@'' @ Role_Name role) @ fst (roleStep st g rid rest)"
    unfolding eq by (rule Replace_leftmost)
next
  assume a: "Role st g rid = Inr role \<and> Mentionable role \<and> Role_ID role = rid
      \<and> starts_no_token [roleToken rid] content []"
  then have eq: "\<And>content. fst (roleStep st g rid content) =
      Replace [(roleToken rid, ''@'' @ Role_Name role)] content"
    using roleStep_replace [of st g rid role] by simp
  have "starts_no_token (map fst [(roleToken rid, ''@'' @ Role_Name role)]) content []"
    using a by simp
  from Replace_skip [OF this] show "fst (roleStep st g rid content) = content"
    unfolding eq by simp
next
  show "snd (fst (ContentWithMoreMentionsReplaced v m s)) =
       (if StateEnabled s
        then (case Channel (State s) (ChannelID m) of Inl err \<Rightarrow> Some err | Inr channel \<Rightarrow> None)
        else None)"
    by (rule enhanced_error)
qed

text \<open>
  C5. With the state enabled and the message's channel resolved, the result of
  \<open>ContentWithMoreMentionsReplaced\<close> is the channel pass of the role pass of the user pass
  of the content, the role pass running over \<open>MentionRoles\<close> in the guild of the resolved
  channel and making one Role lookup in that guild per listed ID, in order. The role pass
  does the step of every listed ID: for every ID of the list, wherever it stands, the pass
  is the step of that ID on the content as the IDs before it left it, followed by the IDs
  behind it. If the Role lookup fails or the role found is not mentionable, the step leaves
  the content, and so the token \<open><@&ID>\<close>, as it is (and a pass in which every role is
  skipped returns its content unchanged); if the lookup returns the mentionable role with
  that ID, the leftmost token \<open><@&ID>\<close> becomes \<open>@RoleName\<close>, the text in front of it is
  kept and the rest is rewritten in the same way, and a content without the token is
  returned as it is. The error the function returns is fixed by \<open>StateEnabled\<close> and the
  lookup of the message's channel alone: no Role lookup can make it non-nil.
\<close>

theorem role_pass_skips_or_replaces:
  "((Role st g rid = Inl err \<or> (Role st g rid = Inr role \<and> \<not> Mentionable role)) \<longrightarrow>
      fst (roleStep st g rid content) = content)
   \<and> ((\<forall>rid \<in> set rids.
         (case Role st g rid of Inl err \<Rightarrow> True | Inr role \<Rightarrow> \<not> Mentionable role)) \<longrightarrow>
      fst (rolePass st g rids content) = content)
   \<and> (Role st g rid = Inr role \<and> Mentionable role \<and> Role_ID role = rid
      \<and> starts_no_token [roleToken rid] pre (roleToken rid @ rest) \<longrightarrow>
      fst (roleStep st g rid (pre @ roleToken rid @ rest)) =
        pre @ (''@'' @ Role_Name role) @ fst (roleStep st g rid rest))
   \<and> (Role st g rid = Inr role \<and> Mentionable role \<and> Role_ID role = rid
      \<and> starts_no_token [roleToken rid] content [] \<longrightarrow>
      fst (roleStep st g rid content) = content)
   \<and> snd (fst (ContentWithMoreMentionsReplaced v m s)) =
       (if StateEnabled s
        then (case Channel (State s) (ChannelID m) of Inl err \<Rightarrow> Some err | Inr channel \<Rightarrow> None)
        else None)
   \<and> snd (roleStep st g rid content) = [RoleLookup g rid]
   \<and> rolePass st g [] content = (content, [])
   \<and> fst (rolePass st g (before @ rid # after) content) =
       fst (rolePass st g after (fst (roleStep st g rid (fst (rolePass st g before content)))))
   \<and> snd (rolePass st g rids content) = map (RoleLookup g) rids
   \<and> (StateEnabled s \<and> Channel (State s) (ChannelID m) = Inr channel \<longrightarrow>
      ContentWithMoreMentionsReplaced v m s =
        ((fst (channelPass (State s) v
            (fst (rolePass (State s) (Channel_GuildID channel) (MentionRoles m)
               (fst (userPass (State s) (Channel_GuildID channel) (Mentions m) (Content m)))))),
          None),
         ChannelLookup (ChannelID m)
           # map (\<lambda>user. MemberLookup (Channel_GuildID channel) (User_ID user)) (Mentions m)
           @ map (RoleLookup (Channel_GuildID channel)) (MentionRoles m)
           @ snd (channelPass (State s) v
               (fst (rolePass (State s) (Channel_GuildID channel) (MentionRoles m)
                  (fst (userPass (State s) (Channel_GuildID channel) (Mentions m)
                     (Content m))))))))"
proof -
  have pass: "snd (roleStep st g rid content) = [RoleLookup g rid]
     \<and> rolePass st g [] content = (content, [])
     \<and> fst (rolePass st g (before @ rid # after) content) =
         fst (rolePass st g after (fst (roleStep st g rid (fst (rolePass st g before content)))))
     \<and> snd (rolePass st g rids content) = map (RoleLookup g) rids
     \<and> (StateEnabled s \<and> Channel (State s) (ChannelID m) = Inr channel \<longrightarrow>
        ContentWithMoreMentionsReplaced v m s =
          ((fst (channelPass (State s) v
              (fst (rolePass (State s) (Channel_GuildID channel) (MentionRoles m)
                 (fst (userPass (State s) (Channel_GuildID channel) (Mentions m) (Content m)))))),
            None),
           ChannelLookup (ChannelID m)
             # map (\<lambda>user. MemberLookup (Channel_GuildID channel) (User_ID user)) (Mentions m)
             @ map (RoleLookup (Channel_GuildID channel)) (MentionRoles m)
             @ snd (channelPass (State s) v
                 (fst (rolePass (State s) (Channel_GuildID channel) (MentionRoles m)
                    (fst (userPass (State s) (Channel_GuildID channel) (Mentions m)
                       (Content m))))))))"
    by (simp add: roleStep_lookups rolePass_member rolePass_lookups enhanced_resolved_passes)
  from conjI [OF roleStep_skips_or_replaces pass] show ?thesis
    unfolding conj_assoc .
qed

theorem role_pass_skips_or_replaces_witness:
  "Role exampleState ''g'' ''5'' = Inr \<lparr>Role_ID = ''5'', Role_Name = ''mods'', Mentionable = True\<rparr>
   \<and> fst (roleStep exampleState ''g'' ''5'' ''ping <@&5>'') = ''ping @mods''
   \<and> Role exampleState ''g'' ''6'' = Inr \<lparr>Role_ID = ''6'', Role_Name = ''staff'', Mentionable = False\<rparr>
   \<and> fst (roleStep exampleState ''g'' ''6'' ''ping <@&6>'') = ''ping <@&6>''
   \<and> Role exampleState ''g'' ''9'' = Inl notFound
   \<and> fst (roleStep exampleState ''g'' ''9'' ''ping <@&9>'') = ''ping <@&9>''
   \<and> fst (rolePass exampleState ''g'' [''6'', ''9''] ''ping <@&6> <@&9>'') = ''ping <@&6> <@&9>''
   \<and> ContentWithMoreMentionsReplaced 2 roleMessage enabledSession
       = ((''ping @mods <@&6> <@&9>'', None),
          [ChannelLookup ''1'', RoleLookup ''g'' ''5'', RoleLookup ''g'' ''6'', RoleLookup ''g'' ''9''])
   \<and> fst (rolePass exampleState ''g'' [''5'', ''6'', ''9'', ''4''] ''<@&5> <@&6> <@&9> <@&4>'')
       = ''@mods <@&6> <@&9> @devs''
   \<and> StateEnabled enabledSession
   \<and> Channel (State enabledSession) (ChannelID teamMessage) =
       Inr \<lparr>Channel_ID = ''1'', Channel_GuildID = ''g'', Channel_Name = ''lobby'', Channel_Type = 0\<rparr>
   \<and> ContentWithMoreMentionsReplaced 2 teamMessage enabledSession
       = ((''@mods <@&6> <@&9> @devs'', None),
          [ChannelLookup ''1'', RoleLookup ''g'' ''5'', RoleLookup ''g'' ''6'',
           RoleLookup ''g'' ''9'', RoleLookup ''g'' ''4''])"
proof -
  note defs = exampleState_def exampleRole_def notFound_def
  have r5: "Role exampleState ''g'' ''5'' = Inr \<lparr>Role_ID = ''5'', Role_Name = ''mods'', Mentionable = True\<rparr>"
    and r6: "Role exampleState ''g'' ''6'' = Inr \<lparr>Role_ID = ''6'', Role_Name = ''staff'', Mentionable = False\<rparr>"
    and r9: "Role exampleState ''g'' ''9'' = Inl notFound"
    by (simp_all add: defs)
  have "fst (roleStep exampleState ''g'' ''5'' ''ping <@&5>'') = ''ping @mods''"
    using r5
      role_pass_skips_or_replaces [where st = exampleState and g = "''g''" and rid = "''5''"
        and role = "\<lparr>Role_ID = ''5'', Role_Name = ''mods'', Mentionable = True\<rparr>"
        and pre = "''ping ''" and rest = "[]" and content = "[]" and rids = "[]"]
    by simp
  moreover have "fst (roleStep exampleState ''g'' ''6'' ''ping <@&6>'') = ''ping <@&6>''"
    using r6
      role_pass_skips_or_replaces [where st = exampleState and g = "''g''" and rid = "''6''"
        and role = "\<lparr>Role_ID = ''6'', Role_Name = ''staff'', Mentionable = False\<rparr>"
        and content = "''ping <@&6>''" and rids = "[]"]
    by simp
  moreover have "fst (roleStep exampleState ''g'' ''9'' ''ping <@&9>'') = ''ping <@&9>''"
    using r9
      role_pass_skips_or_replaces [where st = exampleState and g = "''g''" and rid = "''9''"
        and err = notFound and content = "''ping <@&9>''" and rids = "[]"]
    by simp
  moreover have "fst (rolePass exampleState ''g'' [''6'', ''9''] ''ping <@&6> <@&9>'') = ''ping <@&6> <@&9>''"
    using r6 r9
      role_pass_skips_or_replaces [where st = exampleState and g = "''g''"
        and rids = "[''6'', ''9'']" and content = "''ping <@&6> <@&9>''"]
    by simp
  moreover have "ContentWithMoreMentionsReplaced 2 roleMessage enabledSession
       = ((''ping @mods <@&6> <@&9>'', None),
          [ChannelLookup ''1'', RoleLookup ''g'' ''5'', RoleLookup ''g'' ''6'', RoleLookup ''g'' ''9''])"
    by (simp add: model_defs example_defs roleMessage_def)
  moreover have on: "StateEnabled enabledSession"
    by (simp add: example_defs)
  moreover have lobby: "Channel (State enabledSession) (ChannelID teamMessage) =
       Inr \<lparr>Channel_ID = ''1'', Channel_GuildID = ''g'', Channel_Name = ''lobby'', Channel_Type = 0\<rparr>"
    by (simp add: example_defs)
  moreover have team: "fst (rolePass exampleState ''g'' [''5'', ''6'', ''9'', ''4''] ''<@&5> <@&6> <@&9> <@&4>'')
       = ''@mods <@&6> <@&9> @devs''"
  proof -
    have s5: "fst (roleStep exampleState ''g'' ''5'' ''<@&5> <@&6> <@&9> <@&4>'')
        = ''@mods <@&6> <@&9> <@&4>''"
      by (simp add: roleStep_def State_Role_def strings_Replace_def lookup_def defs)
    have s6: "fst (roleStep exampleState ''g'' ''6'' ''@mods <@&6> <@&9> <@&4>'')
        = ''@mods <@&6> <@&9> <@&4>''"
      by (simp add: roleStep_def State_Role_def strings_Replace_def lookup_def defs)
    have s9: "fst (roleStep exampleState ''g'' ''9'' ''@mods <@&6> <@&9> <@&4>'')
        = ''@mods <@&6> <@&9> <@&4>''"
      by (simp add: roleStep_def State_Role_def strings_Replace_def lookup_def defs)
    have s4: "fst (roleStep exampleState ''g'' ''4'' ''@mods <@&6> <@&9> <@&4>'')
        = ''@mods <@&6> <@&9> @devs''"
      by (simp add: roleStep_def State_Role_def strings_Replace_def lookup_def defs)
    show ?thesis
      using s5 s6 s9 s4
        role_pass_skips_or_replaces [where st = exampleState and g = "''g''"
          and before = "[''5'', ''6'', ''9'']" and rid = "''4''" and after = "[]"
          and content = "''<@&5> <@&6> <@&9> <@&4>''" and rids = "[]"]
        role_pass_skips_or_replaces [where st = exampleState and g = "''g''"
          and before = "[''5'', ''6'']" and rid = "''9''" and after = "[]"
          and content = "''<@&5> <@&6> <@&9> <@&4>''" and rids = "[]"]
        role_pass_skips_or_replaces [where st = exampleState and g = "''g''"
          and before = "[''5'']" and rid = "''6''" and after = "[]"
          and content = "''<@&5> <@&6> <@&9> <@&4>''" and rids = "[]"]
        role_pass_skips_or_replaces [where st = exampleState and g = "''g''"
          and before = "[]" and rid = "''5''" and after = "[]"
          and content = "''<@&5> <@&6> <@&9> <@&4>''" and rids = "[]"]
        role_pass_skips_or_replaces [where st = exampleState and g = "''g''"
          and content = "''@mods <@&6> <@&9> @devs''" and rids = "[]"]
      by simp
  qed
  moreover have "ContentWithMoreMentionsReplaced 2 teamMessage enabledSession
       = ((''@mods <@&6> <@&9> @devs'', None),
          [ChannelLookup ''1'', RoleLookup ''g'' ''5'', RoleLookup ''g'' ''6'',
           RoleLookup ''g'' ''9'', RoleLookup ''g'' ''4''])"
  proof -
    have fields: "Mentions teamMessage = []"
        "MentionRoles teamMessage = [''5'', ''6'', ''9'', ''4'']"
        "Content teamMessage = ''<@&5> <@&6> <@&9> <@&4>''" "ChannelID teamMessage = ''1''"
        "State enabledSession = exampleState"
      by (simp_all add: teamMessage_def enabledSession_def)
    have quiet: "channelPass exampleState 2 ''@mods <@&6> <@&9> @devs''
        = (''@mods <@&6> <@&9> @devs'', [])"
      by (simp add: channelPass_def traced_append_def)
    from on lobby
      role_pass_skips_or_replaces [where s = enabledSession and m = teamMessage and v = 2
        and rids = "[]"
        and channel = "\<lparr>Channel_ID = ''1'', Channel_GuildID = ''g'', Channel_Name = ''lobby'', Channel_Type = 0\<rparr>"]
    have "ContentWithMoreMentionsReplaced 2 teamMessage enabledSession =
        ((fst (channelPass exampleState 2
            (fst (rolePass exampleState ''g'' [''5'', ''6'', ''9'', ''4'']
               (fst (userPass exampleState ''g'' [] ''<@&5> <@&6> <@&9> <@&4>''))))),
          None),
         ChannelLookup ''1''
           # map (\<lambda>user. MemberLookup ''g'' (User_ID user)) []
           @ map (RoleLookup ''g'') [''5'', ''6'', ''9'', ''4'']
           @ snd (channelPass exampleState 2
               (fst (rolePass exampleState ''g'' [''5'', ''6'', ''9'', ''4'']
                  (fst (userPass exampleState ''g'' [] ''<@&5> <@&6> <@&9> <@&4>''))))))"
      unfolding fields by simp
    then show ?thesis
      using team by (simp add: quiet)
  qed
  ultimately show ?thesis
    using r5 r6 r9 by simp
qed


section \<open>The channel pass\<close>





section \<open>Messages that mention nobody\<close>

text \<open>
  C2 as stated says that with empty \<open>Mentions\<close> and \<open>MentionRoles\<close> both functions return
  the content unchanged in every state. The channel pass does not depend on these lists:
  \<open>channelMessage\<close> mentions nobody, and its content \<open>see <#7>\<close> becomes \<open>see #general\<close>.
\<close>

theorem no_mentions_enhanced_changes_counterexample:
  "Mentions channelMessage = [] \<and> MentionRoles channelMessage = []
   \<and> Content channelMessage = ''see <#7>''
   \<and> fst (fst (ContentWithMoreMentionsReplaced 2 channelMessage enabledSession)) = ''see #general''
   \<and> fst (fst (ContentWithMoreMentionsReplaced 2 channelMessage enabledSession))
       \<noteq> Content channelMessage"
  by (simp add: model_defs example_defs)

lemma basic_no_mentions:
  "Mentions m = [] \<Longrightarrow> ContentWithMentionsReplaced m = Content m"
  by (simp add: ContentWithMentionsReplaced_def)

lemma enhanced_no_mentions:
  assumes "Mentions m = []" and "MentionRoles m = []"
  shows "fst (fst (ContentWithMoreMentionsReplaced v m s)) =
     (if StateEnabled s
      then (case Channel (State s) (ChannelID m) of
              Inl err \<Rightarrow> Content m
            | Inr channel \<Rightarrow> fst (channelPass (State s) v (Content m)))
      else Content m)"
proof (cases "StateEnabled s")
  case False
  then show ?thesis
    by (simp add: enhanced_disabled basic_no_mentions [OF assms(1)])
next
  case True
  show ?thesis
  proof (cases "Channel (State s) (ChannelID m)")
    case (Inl err)
    with True show ?thesis
      by (simp add: enhanced_unresolved basic_no_mentions [OF assms(1)])
  next
    case (Inr channel)
    with True assms show ?thesis
      by (simp add: enhanced_resolved)
  qed
qed

text \<open>
  C2, amended. For every message whose \<open>Mentions\<close> and \<open>MentionRoles\<close> are empty,
  \<open>ContentWithMentionsReplaced\<close> returns the content unchanged, and
  \<open>ContentWithMoreMentionsReplaced\<close> returns the content unchanged when the state is
  disabled or the lookup of the message's channel fails, and otherwise the content after the
  channel pass alone; that is again the content unchanged when every channel the pass looks
  up is missing or of the voice type.
\<close>

theorem no_mentions_only_channel_pass:
  assumes "Mentions m = []" and "MentionRoles m = []"
  shows "ContentWithMentionsReplaced m = Content m
   \<and> fst (fst (ContentWithMoreMentionsReplaced v m s)) =
       (if StateEnabled s
        then (case Channel (State s) (ChannelID m) of
                Inl err \<Rightarrow> Content m
              | Inr channel \<Rightarrow> fst (channelPass (State s) v (Content m)))
        else Content m)
   \<and> ((\<forall>cid. ChannelLookup cid \<in> set (snd (channelPass (State s) v (Content m))) \<longrightarrow>
          (case Channel (State s) cid of
             Inl err \<Rightarrow> True | Inr channel \<Rightarrow> Channel_Type channel = v)) \<longrightarrow>
       fst (fst (ContentWithMoreMentionsReplaced v m s)) = Content m)"
proof (intro conjI impI)
  show "ContentWithMentionsReplaced m = Content m"
    by (rule basic_no_mentions [OF assms(1)])
next
  show "fst (fst (ContentWithMoreMentionsReplaced v m s)) =
       (if StateEnabled s
        then (case Channel (State s) (ChannelID m) of
                Inl err \<Rightarrow> Content m
              | Inr channel \<Rightarrow> fst (channelPass (State s) v (Content m)))
        else Content m)"
    by (rule enhanced_no_mentions [OF assms])
next
  assume "\<forall>cid. ChannelLookup cid \<in> set (snd (channelPass (State s) v (Content m))) \<longrightarrow>
          (case Channel (State s) cid of
             Inl err \<Rightarrow> True | Inr channel \<Rightarrow> Channel_Type channel = v)"
  then have "fst (channelPass (State s) v (Content m)) = Content m"
    by (rule channelPass_quiet)
  then show "fst (fst (ContentWithMoreMentionsReplaced v m s)) = Content m"
    unfolding enhanced_no_mentions [OF assms] by (simp split: sum.splits)
qed

theorem no_mentions_only_channel_pass_witness:
  "Mentions channelMessage = [] \<and> MentionRoles channelMessage = []
   \<and> ContentWithMentionsReplaced channelMessage = ''see <#7>''
   \<and> fst (fst (ContentWithMoreMentionsReplaced 2 channelMessage disabledSession)) = ''see <#7>''
   \<and> fst (fst (ContentWithMoreMentionsReplaced 2 channelMessage enabledSession)) = ''see #general''
   \<and> Mentions voiceMessage = [] \<and> MentionRoles voiceMessage = []
   \<and> snd (channelPass (State enabledSession) 2 (Content voiceMessage))
       = [ChannelLookup ''8'', ChannelLookup ''9'']
   \<and> fst (fst (ContentWithMoreMentionsReplaced 2 voiceMessage enabledSession)) = ''join <#8> or <#9>''"
proof -
  have empty: "Mentions channelMessage = []" "MentionRoles channelMessage = []"
    and empty': "Mentions voiceMessage = []" "MentionRoles voiceMessage = []"
    by (simp_all add: example_defs voiceMessage_def)
  have looked: "snd (channelPass (State enabledSession) 2 (Content voiceMessage))
       = [ChannelLookup ''8'', ChannelLookup ''9'']"
    by (simp add: model_defs example_defs voiceMessage_def)
  have quiet: "\<forall>cid. ChannelLookup cid
        \<in> set (snd (channelPass (State enabledSession) 2 (Content voiceMessage))) \<longrightarrow>
      (case Channel (State enabledSession) cid of
         Inl err \<Rightarrow> True | Inr channel \<Rightarrow> Channel_Type channel = 2)"
    unfolding looked by (simp add: example_defs)
  have pass: "fst (channelPass (State enabledSession) 2 (Content channelMessage)) = ''see #general''"
    by (simp add: model_defs example_defs)
  have "ContentWithMentionsReplaced channelMessage = ''see <#7>''"
    using no_mentions_only_channel_pass [OF empty, of 2 disabledSession]
    by (simp add: example_defs)
  moreover have "fst (fst (ContentWithMoreMentionsReplaced 2 channelMessage disabledSession)) = ''see <#7>''"
    using no_mentions_only_channel_pass [OF empty, of 2 disabledSession]
    by (simp add: example_defs)
  moreover have "fst (fst (ContentWithMoreMentionsReplaced 2 channelMessage enabledSession)) = ''see #general''"
    using no_mentions_only_channel_pass [OF empty, of 2 enabledSession] pass
    by (simp add: example_defs)
  moreover have "fst (fst (ContentWithMoreMentionsReplaced 2 voiceMessage enabledSession)) = ''join <#8> or <#9>''"
  proof -
    have "fst (fst (ContentWithMoreMentionsReplaced 2 voiceMessage enabledSession))
        = Content voiceMessage"
      using no_mentions_only_channel_pass [OF empty', of 2 enabledSession] quiet by blast
    moreover have "Content voiceMessage = ''join <#8> or <#9>''"
      by (simp add: voiceMessage_def)
    ultimately show ?thesis by simp
  qed
  ultimately show ?thesis
    using empty empty' looked by simp
qed

end
